theory Spec2Isabelle
  imports Main "HOL-Library.Sublist"
begin

section \<open>Values, errors and ordered dictionaries\<close>

text \<open>
  The job lifecycle manager of \<^verbatim>\<open>pandexo/engine/run_online.py\<close>: the job table
  \<^verbatim>\<open>BaseHandler.buffer\<close>, the status projection, result retrieval and the cleanup of
  the temporary directory. Python values are kept to what these functions touch.
\<close>

datatype pyval = PyNone | PyInt int | PyStr string | PyDict "(string \<times> pyval) list"

text \<open>
  Exceptions as values. \<open>Raised kind message\<close> is an exception coming out of an external
  collaborator (the compute function, the plotting helpers). \<open>HTTPError status\<close> is
  \<^verbatim>\<open>tornado.web.HTTPError\<close>, the only exception the web framework answers with a status of
  the handler's choice.
\<close>

datatype py_error =
    AttributeError string
  | IndexError
  | KeyError string
  | TypeError
  | FileNotFoundError string
  | HTTPError int
  | Raised string string

text \<open>
  \<^verbatim>\<open>collections.OrderedDict\<close>: the items in insertion order. \<^verbatim>\<open>d.get(k)\<close> gives
  \<open>None\<close> for a missing key; \<^verbatim>\<open>d[k] = v\<close> replaces the value of an existing key where it
  stands and appends a new key at the end; \<^verbatim>\<open>d.popitem(last=False)\<close> removes the first
  item and raises \<^verbatim>\<open>KeyError\<close> on an empty dictionary.
\<close>

type_synonym ('k, 'v) ordered_dict = "('k \<times> 'v) list"

definition od_get :: "('k, 'v) ordered_dict \<Rightarrow> 'k \<Rightarrow> 'v option" where
  "od_get d k = map_of d k"

fun od_setitem :: "('k, 'v) ordered_dict \<Rightarrow> 'k \<Rightarrow> 'v \<Rightarrow> ('k, 'v) ordered_dict" where
  "od_setitem [] k v = [(k, v)]"
| "od_setitem ((k', v') # d) k v =
     (if k' = k then (k, v) # d else (k', v') # od_setitem d k v)"

definition od_popitem_first ::
  "('k, 'v) ordered_dict \<Rightarrow> py_error + (('k \<times> 'v) \<times> ('k, 'v) ordered_dict)" where
  "od_popitem_first d =
     (case d of [] \<Rightarrow> Inl (KeyError ''dictionary is empty'') | kv # d' \<Rightarrow> Inr (kv, d'))"

section \<open>The job handle and the job record\<close>

text \<open>
  Modelled from the spec: the job handle (section 4.2, JobHandle). The source keeps in
  \<^verbatim>\<open>task\<close> the object returned by \<^verbatim>\<open>executor.submit\<close>, a
  \<^verbatim>\<open>concurrent.futures.Future\<close> of the standard library, whose code is not part of the
  repository. The record holds what each method of the handle answers when it is called:
  \<^verbatim>\<open>running()\<close>, \<^verbatim>\<open>done()\<close>, \<^verbatim>\<open>cancelled()\<close>, and \<^verbatim>\<open>result()\<close>, which returns the
  computed value (\<open>Some (Inr v)\<close>), re-raises the failure of the compute function
  (\<open>Some (Inl e)\<close>) or never returns because the job never completes (\<open>None\<close>).
\<close>

record future =
  running :: bool
  is_done :: bool
  cancelled :: bool
  result :: "(py_error + pyval) option"

text \<open>
  Modelled from the spec: the life cycle of a handle (section 4.4, Pending, Running, then
  Finished or Failed). \<open>dispatched\<close> is the handle as \<^verbatim>\<open>executor.submit\<close> returns it while no
  worker has taken the job, \<open>started\<close> the handle while a worker runs the compute function,
  \<open>completed r\<close> the handle once the compute function has returned or raised \<open>r\<close>.
\<close>

definition dispatched :: "(py_error + pyval) option \<Rightarrow> future" where
  "dispatched r = \<lparr>running = False, is_done = False, cancelled = False, result = r\<rparr>"

definition started :: "(py_error + pyval) option \<Rightarrow> future" where
  "started r = \<lparr>running = True, is_done = False, cancelled = False, result = r\<rparr>"

definition completed :: "py_error + pyval \<Rightarrow> future" where
  "completed r = \<lparr>running = False, is_done = True, cancelled = False, result = Some r\<rparr>"

text \<open>
  \<^verbatim>\<open>CalculationTask = namedtuple('CalculationTask', ['id', 'name', 'task', 'cookie', 'count'])\<close>.
  The cookie is what \<^verbatim>\<open>get_cookie("pandexo_user")\<close> gave at submission: \<open>None\<close> when the
  client sent none.
\<close>

record CalculationTask =
  task_id :: string
  name :: string
  task :: future
  cookie :: "string option"
  count :: int

type_synonym buffer = "(string, CalculationTask) ordered_dict"

section \<open>Submission: \<^verbatim>\<open>BaseHandler._add_task\<close>\<close>

text \<open>
  The first argument is the cookie of the request (\<^verbatim>\<open>self.get_cookie("pandexo_user")\<close>).
  The record is built before the assignment, so \<open>count\<close> is the size before the insertion
  plus one.
\<close>

definition add_task ::
  "string option \<Rightarrow> buffer \<Rightarrow> string \<Rightarrow> string \<Rightarrow> future \<Rightarrow> py_error + buffer" where
  "add_task user buf i nm t =
     (let buf' = od_setitem buf i
            \<lparr>task_id = i, name = nm, task = t, cookie = user, count = int (length buf) + 1\<rparr>
      in if length buf' > 100
         then (case od_popitem_first buf' of Inl e \<Rightarrow> Inl e | Inr (kv, buf'') \<Rightarrow> Inr buf'')
         else Inr buf')"

text \<open>A sequence of submissions, each with its own cookie, id, name and handle.\<close>

record submission =
  sub_cookie :: "string option"
  sub_id :: string
  sub_name :: string
  sub_task :: future

fun submit_all :: "buffer \<Rightarrow> submission list \<Rightarrow> py_error + buffer" where
  "submit_all buf [] = Inr buf"
| "submit_all buf (s # ss) =
     (case add_task (sub_cookie s) buf (sub_id s) (sub_name s) (sub_task s) of
        Inl e \<Rightarrow> Inl e
      | Inr buf' \<Rightarrow> submit_all buf' ss)"

section \<open>Status projection\<close>

text \<open>
  A response is the Python dictionary the handlers build, in the order the keys are set.
  \<open>render_string\<close> is the template engine (\<^verbatim>\<open>self.render_string\<close>), an external
  collaborator taken as a parameter. \<^verbatim>\<open>self.buffer.get(id)\<close> gives \<open>None\<close> for an unknown
  id, and \<^verbatim>\<open>calc_task.task\<close> on \<open>None\<close> raises \<^verbatim>\<open>AttributeError\<close> (the argument is
  the attribute that was asked for).
\<close>

type_synonym response = "(string, pyval) ordered_dict"

definition get_task_response ::
  "(string \<Rightarrow> response \<Rightarrow> string) \<Rightarrow> buffer \<Rightarrow> string \<Rightarrow> py_error + response" where
  "get_task_response render_string buf i =
     (case od_get buf i of
        None \<Rightarrow> Inl (AttributeError ''task'')
      | Some calc_task \<Rightarrow>
          (let t = task calc_task;
               response = [(''id'', PyStr i), (''name'', PyStr (name calc_task)),
                           (''count'', PyInt (count calc_task))];
               response =
                 (if running t
                  then od_setitem (od_setitem response ''state'' (PyStr ''running''))
                         ''code'' (PyInt 202)
                  else if is_done t then od_setitem response ''state'' (PyStr ''finished'')
                  else if cancelled t then od_setitem response ''state'' (PyStr ''cancelled'')
                  else od_setitem response ''state'' (PyStr ''pending''));
               response = od_setitem response ''html''
                            (PyStr (render_string ''calc_row.html'' response))
           in Inr response))"

definition get_task_response_hst ::
  "(string \<Rightarrow> response \<Rightarrow> string) \<Rightarrow> buffer \<Rightarrow> string \<Rightarrow> py_error + response" where
  "get_task_response_hst render_string buf i =
     (case od_get buf i of
        None \<Rightarrow> Inl (AttributeError ''task'')
      | Some calc_task \<Rightarrow>
          (let t = task calc_task;
               response = [(''id'', PyStr i), (''name'', PyStr (name calc_task)),
                           (''count'', PyInt (count calc_task))];
               response =
                 (if running t
                  then od_setitem (od_setitem response ''state'' (PyStr ''running''))
                         ''code'' (PyInt 202)
                  else if is_done t then od_setitem response ''state'' (PyStr ''finished'')
                  else if cancelled t then od_setitem response ''state'' (PyStr ''cancelled'')
                  else od_setitem response ''state'' (PyStr ''pending''));
               response = od_setitem response ''html''
                            (PyStr (render_string ''calc_rowhst.html'' response))
           in Inr response))"

text \<open>
  \<^verbatim>\<open>CalculationStatusHandler.get\<close> and \<^verbatim>\<open>CalculationStatusHSTHandler.get\<close>: the value is
  what the handler writes, \<open>None\<close> when it returns without writing because the connection
  is closed. An exception of the projection leaves the handler.
\<close>

definition CalculationStatusHandler_get ::
  "(string \<Rightarrow> response \<Rightarrow> string) \<Rightarrow> bool \<Rightarrow> buffer \<Rightarrow> string \<Rightarrow> py_error + response option" where
  "CalculationStatusHandler_get render_string stream_closed buf i =
     (case get_task_response render_string buf i of
        Inl e \<Rightarrow> Inl e
      | Inr response \<Rightarrow> if stream_closed then Inr None else Inr (Some response))"

definition CalculationStatusHSTHandler_get ::
  "(string \<Rightarrow> response \<Rightarrow> string) \<Rightarrow> bool \<Rightarrow> buffer \<Rightarrow> string \<Rightarrow> py_error + response option" where
  "CalculationStatusHSTHandler_get render_string stream_closed buf i =
     (case get_task_response_hst render_string buf i of
        Inl e \<Rightarrow> Inl e
      | Inr response \<Rightarrow> if stream_closed then Inr None else Inr (Some response))"

text \<open>
  The status the web framework answers with when an exception leaves a handler
  (\<^verbatim>\<open>tornado.web.RequestHandler\<close>, not part of the repository): the status carried by an
  \<^verbatim>\<open>HTTPError\<close>, and 500 for every other exception; \<^verbatim>\<open>BaseHandler.write_error\<close> then
  renders the error page with that status.
\<close>

definition send_error_status :: "py_error \<Rightarrow> int" where
  "send_error_status e = (case e of HTTPError status \<Rightarrow> status | _ \<Rightarrow> 500)"

section \<open>The dashboards\<close>

text \<open>
  \<^verbatim>\<open>s[k]\<close> on a Python string: a negative index counts from the end, an index out of
  range raises \<^verbatim>\<open>IndexError\<close>. The dashboards read \<^verbatim>\<open>id[len(id)-1]\<close>.
\<close>

definition str_getitem :: "string \<Rightarrow> int \<Rightarrow> py_error + char" where
  "str_getitem s k =
     (let n = int (length s); j = (if k < 0 then n + k else k)
      in if 0 \<le> j \<and> j < n then Inr (s ! nat j) else Inl IndexError)"

text \<open>
  The list comprehension of \<^verbatim>\<open>DashboardHandler.get\<close> and \<^verbatim>\<open>DashboardHSTHandler.get\<close>
  over \<^verbatim>\<open>list(self.buffer.items())\<close>. \<open>project\<close> is the status projection of the handler,
  \<open>tag\<close> its letter. Both operands of \<^verbatim>\<open>&\<close> are evaluated, so the index is read for every
  item, whoever owns it.
\<close>

fun dashboard_rows ::
  "(string \<Rightarrow> py_error + response) \<Rightarrow> char \<Rightarrow> string option \<Rightarrow>
   (string \<times> CalculationTask) list \<Rightarrow> py_error + response list" where
  "dashboard_rows project tag user [] = Inr []"
| "dashboard_rows project tag user ((i, nt) # items) =
     (case str_getitem i (int (length i) - 1) of
        Inl e \<Rightarrow> Inl e
      | Inr c \<Rightarrow>
          if cookie nt = user \<and> c = tag
          then (case project i of
                  Inl e \<Rightarrow> Inl e
                | Inr response \<Rightarrow>
                    (case dashboard_rows project tag user items of
                       Inl e \<Rightarrow> Inl e
                     | Inr responses \<Rightarrow> Inr (response # responses)))
          else dashboard_rows project tag user items)"

text \<open>
  The value of a dashboard is the list \<^verbatim>\<open>calculations\<close> handed to the template:
  \<^verbatim>\<open>task_responses[::-1]\<close>. \<open>user\<close> is the cookie of the request.
\<close>

definition DashboardHandler_get ::
  "(string \<Rightarrow> response \<Rightarrow> string) \<Rightarrow> string option \<Rightarrow> buffer \<Rightarrow> py_error + response list" where
  "DashboardHandler_get render_string user buf =
     (case dashboard_rows (get_task_response render_string buf) CHR ''e'' user buf of
        Inl e \<Rightarrow> Inl e
      | Inr task_responses \<Rightarrow> Inr (rev task_responses))"

definition DashboardHSTHandler_get ::
  "(string \<Rightarrow> response \<Rightarrow> string) \<Rightarrow> string option \<Rightarrow> buffer \<Rightarrow> py_error + response list" where
  "DashboardHSTHandler_get render_string user buf =
     (case dashboard_rows (get_task_response_hst render_string buf) CHR ''h'' user buf of
        Inl e \<Rightarrow> Inl e
      | Inr task_responses \<Rightarrow> Inr (rev task_responses))"

section \<open>Result retrieval: \<^verbatim>\<open>BaseHandler._get_task_result\<close>\<close>

text \<open>
  \<^verbatim>\<open>return task.result()\<close>: whatever the handle returns or raises, with no handler around
  it. \<open>None\<close> is a call that never returns.
\<close>

definition get_task_result :: "buffer \<Rightarrow> string \<Rightarrow> (py_error + pyval) option" where
  "get_task_result buf i =
     (case od_get buf i of
        None \<Rightarrow> Some (Inl (AttributeError ''task''))
      | Some calc_task \<Rightarrow> result (task calc_task))"

section \<open>The worker's side of a job handle\<close>

text \<open>
  Modelled from the spec: the unit of work behind a job handle (section 4.2). The source
  gets its handles from \<^verbatim>\<open>ProcessPoolExecutor.submit\<close> of the standard library, whose code
  is not part of the repository. A unit of work holds the compute function and its
  payload, the stage it has reached (pending, running, or finished with the value or the
  failure of the compute function), and how many times the compute function has been
  executed for it. The compute function gives \<open>None\<close> when it never returns.
\<close>

datatype stage = Pending | Running | Finished "py_error + pyval"

record unit_of_work =
  compute_fn :: "pyval \<Rightarrow> (py_error + pyval) option"
  payload :: pyval
  stage :: stage
  executions :: nat

text \<open>
  Modelled from the spec: \<^verbatim>\<open>dispatch(computeFn, payload)\<close> returns at once, with nothing
  executed yet.
\<close>

definition dispatch :: "(pyval \<Rightarrow> (py_error + pyval) option) \<Rightarrow> pyval \<Rightarrow> unit_of_work" where
  "dispatch computeFn p =
     \<lparr>compute_fn = computeFn, payload = p, stage = Pending, executions = 0\<rparr>"

text \<open>
  Modelled from the spec: \<^verbatim>\<open>result()\<close> waits until the unit of work finishes, that is
  until the compute function has been run to completion on the payload, and gives what
  it returned or raised; on a finished unit it gives the cached outcome. The value is the
  outcome with the unit of work as the call leaves it, or \<open>None\<close> for a call that never
  returns.
\<close>

definition handle_result :: "unit_of_work \<Rightarrow> ((py_error + pyval) \<times> unit_of_work) option" where
  "handle_result w =
     (case stage w of
        Finished r \<Rightarrow> Some (r, w)
      | _ \<Rightarrow>
          (case compute_fn w (payload w) of
             None \<Rightarrow> None
           | Some r \<Rightarrow> Some (r, w\<lparr>stage := Finished r, executions := executions w + 1\<rparr>)))"

text \<open>
  Modelled from the spec: what the methods of the handle answer for a unit of work in its
  present stage. Cancellation is not supported.
\<close>

definition handle_of :: "unit_of_work \<Rightarrow> future" where
  "handle_of w =
     \<lparr>running = (stage w = Running),
      is_done = (case stage w of Finished r \<Rightarrow> True | _ \<Rightarrow> False),
      cancelled = False,
      result = map_option fst (handle_result w)\<rparr>"

section \<open>The temporary directory\<close>

text \<open>
  The directory \<^verbatim>\<open>__TEMP__\<close>: file names with their bytes. \<^verbatim>\<open>s.find(sub)\<close> is the lowest
  index at which \<open>sub\<close> occurs in \<open>s\<close>, or \<open>-1\<close>. \<^verbatim>\<open>os.remove\<close> raises
  \<^verbatim>\<open>FileNotFoundError\<close> for a file that is not there.
\<close>

type_synonym directory = "(string, string) ordered_dict"

fun str_find :: "string \<Rightarrow> string \<Rightarrow> int" where
  "str_find [] sub = (if sub = [] then 0 else - 1)"
| "str_find (c # s) sub =
     (if prefix sub (c # s) then 0
      else (let r = str_find s sub in if r = - 1 then - 1 else r + 1))"

definition os_remove :: "directory \<Rightarrow> string \<Rightarrow> (py_error + unit) \<times> directory" where
  "os_remove d f =
     (if f \<in> fst ` set d then (Inr (), filter (\<lambda>(n, data). n \<noteq> f) d)
      else (Inl (FileNotFoundError f), d))"

text \<open>
  The cleanup loop of the download and view handlers:
  \<^verbatim>\<open>for i in allfiles: if i.find(id) != -1: os.remove(os.path.join(__TEMP__, i))\<close>.
\<close>

fun remove_matching :: "string list \<Rightarrow> string \<Rightarrow> directory \<Rightarrow> (py_error + unit) \<times> directory" where
  "remove_matching [] i d = (Inr (), d)"
| "remove_matching (f # allfiles) i d =
     (if str_find f i \<noteq> - 1
      then (case os_remove d f of
              (Inl e, d') \<Rightarrow> (Inl e, d')
            | (Inr u, d') \<Rightarrow> remove_matching allfiles i d')
      else remove_matching allfiles i d)"

definition sweep :: "directory \<Rightarrow> string \<Rightarrow> (py_error + unit) \<times> directory" where
  "sweep d i = remove_matching (map fst d) i d"

text \<open>
  The read loop of the download:
  \<^verbatim>\<open>while True: data = f.read(buf_size); if not data: break; self.write(data)\<close>.
\<close>

function read_chunks :: "nat \<Rightarrow> string \<Rightarrow> string list" where
  "read_chunks buf_size content =
     (let data = take buf_size content
      in if data = [] then [] else data # read_chunks buf_size (drop buf_size content))"
  by pat_completeness auto
termination
  by (relation "measure (\<lambda>(buf_size, content). length content)") auto

section \<open>Download and view handlers\<close>

text \<open>
  What a handler has sent: the headers it set, the chunks it wrote, and whether it called
  \<^verbatim>\<open>self.finish()\<close>.
\<close>

record reply =
  headers :: "(string \<times> string) list"
  body :: "string list"
  finished :: bool

text \<open>
  \<^verbatim>\<open>CalculationDownloadHandler.get\<close>. \<open>pickle_dumps\<close> is the serialisation of
  \<^verbatim>\<open>pickle.dump\<close>, \<open>stream_closed\<close> the answer of
  \<^verbatim>\<open>self.request.connection.stream.closed()\<close>. The value is \<open>None\<close> when the handler never
  returns, and otherwise what it sent or raised together with the directory it leaves.
\<close>

definition CalculationDownloadHandler_get ::
  "(pyval \<Rightarrow> string) \<Rightarrow> bool \<Rightarrow> buffer \<Rightarrow> directory \<Rightarrow> string \<Rightarrow>
   ((py_error + reply) \<times> directory) option" where
  "CalculationDownloadHandler_get pickle_dumps stream_closed buf temp i =
     (case get_task_result buf i of
        None \<Rightarrow> None
      | Some (Inl e) \<Rightarrow> Some (Inl e, temp)
      | Some (Inr res) \<Rightarrow>
          if stream_closed
          then Some (Inr \<lparr>headers = [], body = [], finished = False\<rparr>, temp)
          else
            (let file_name = ''ETC-calculation'' @ i @ ''.p'';
                 temp1 = od_setitem temp file_name (pickle_dumps res);
                 hs = [(''Content-Type'', ''application/octet-stream''),
                       (''Content-Disposition'', ''attachment; filename='' @ file_name)]
             in case od_get temp1 file_name of
                  None \<Rightarrow> Some (Inl (FileNotFoundError file_name), temp1)
                | Some content \<Rightarrow>
                    (case sweep temp1 i of
                       (Inl e, temp2) \<Rightarrow> Some (Inl e, temp2)
                     | (Inr u, temp2) \<Rightarrow>
                         Some (Inr \<lparr>headers = hs, body = read_chunks 4096 content,
                                    finished = True\<rparr>, temp2))))"

text \<open>
  \<^verbatim>\<open>result['key']\<close> on the value a job returned: a dictionary lookup, \<^verbatim>\<open>KeyError\<close> for a
  missing key, \<^verbatim>\<open>TypeError\<close> for a value that is no dictionary.
\<close>

definition py_getitem :: "pyval \<Rightarrow> string \<Rightarrow> py_error + pyval" where
  "py_getitem v k =
     (case v of
        PyDict d \<Rightarrow> (case od_get d k of None \<Rightarrow> Inl (KeyError k) | Some x \<Rightarrow> Inr x)
      | _ \<Rightarrow> Inl TypeError)"

text \<open>
  \<^verbatim>\<open>CalculationViewHandler.get\<close> and \<^verbatim>\<open>CalculationViewHSTHandler.get\<close>.
  \<open>create_component\<close> is the plotting helper (\<^verbatim>\<open>create_component_jwst\<close>,
  \<^verbatim>\<open>create_component_hst\<close>), which gives a script and the dictionary \<^verbatim>\<open>div\<close> of page parts or
  raises; \<open>render\<close> is the template engine with the template, the script, the parts and
  the id. The value is the page and the directory the handler leaves.
\<close>

definition CalculationViewHandler_get ::
  "(pyval \<Rightarrow> py_error + string \<times> response) \<Rightarrow> (string \<Rightarrow> string \<Rightarrow> response \<Rightarrow> string \<Rightarrow> string) \<Rightarrow>
   buffer \<Rightarrow> directory \<Rightarrow> string \<Rightarrow> ((py_error + string) \<times> directory) option" where
  "CalculationViewHandler_get create_component render buf temp i =
     (case get_task_result buf i of
        None \<Rightarrow> None
      | Some (Inl e) \<Rightarrow> Some (Inl e, temp)
      | Some (Inr res) \<Rightarrow>
          (case create_component res of
             Inl e \<Rightarrow> Some (Inl e, temp)
           | Inr (script, divs) \<Rightarrow>
               (case py_getitem res ''timing_div'' of
                  Inl e \<Rightarrow> Some (Inl e, temp)
                | Inr timing \<Rightarrow>
                    (case py_getitem res ''input_div'' of
                       Inl e \<Rightarrow> Some (Inl e, temp)
                     | Inr input \<Rightarrow>
                         (case py_getitem res ''warnings_div'' of
                            Inl e \<Rightarrow> Some (Inl e, temp)
                          | Inr warnings \<Rightarrow>
                              (let divs = od_setitem divs ''timing_div'' timing;
                                   divs = od_setitem divs ''input_div'' input;
                                   divs = od_setitem divs ''warnings_div'' warnings
                               in case sweep temp i of
                                    (Inl e, temp') \<Rightarrow> Some (Inl e, temp')
                                  | (Inr u, temp') \<Rightarrow>
                                      Some (Inr (render ''view.html'' script divs i), temp')))))))"

definition CalculationViewHSTHandler_get ::
  "(pyval \<Rightarrow> py_error + string \<times> response) \<Rightarrow> (string \<Rightarrow> string \<Rightarrow> response \<Rightarrow> string \<Rightarrow> string) \<Rightarrow>
   buffer \<Rightarrow> directory \<Rightarrow> string \<Rightarrow> ((py_error + string) \<times> directory) option" where
  "CalculationViewHSTHandler_get create_component render buf temp i =
     (case get_task_result buf i of
        None \<Rightarrow> None
      | Some (Inl e) \<Rightarrow> Some (Inl e, temp)
      | Some (Inr res) \<Rightarrow>
          (case create_component res of
             Inl e \<Rightarrow> Some (Inl e, temp)
           | Inr (script, divs) \<Rightarrow>
               (case py_getitem res ''info_div'' of
                  Inl e \<Rightarrow> Some (Inl e, temp)
                | Inr info \<Rightarrow>
                    (let divs = od_setitem divs ''info_div'' info
                     in Some (Inr (render ''viewhst.html'' script divs i), temp)))))"

section \<open>Example data\<close>

text \<open>
  One hundred and one submissions with distinct ids (\<open>e\<close>, \<open>0e\<close>, \<open>00e\<close>, ...), and a full
  job table of one hundred records with the first hundred of these ids.
\<close>

definition example_jobs :: "submission list" where
  "example_jobs =
     map (\<lambda>k. \<lparr>sub_cookie = Some ''u'', sub_id = replicate k CHR ''0'' @ ''e'',
                sub_name = ''job'', sub_task = dispatched None\<rparr>) [0..<101]"

definition example_buffer :: buffer where
  "example_buffer =
     map (\<lambda>k. (replicate k CHR ''0'' @ ''e'',
                \<lparr>task_id = replicate k CHR ''0'' @ ''e'', name = ''job'', task = dispatched None,
                 cookie = Some ''u'', count = int k + 1\<rparr>)) [0..<100]"

text \<open>
  Stand-ins for the external collaborators (template engine, plotting helper,
  serialisation), a record with a given id and handle, and the failure of the scenario
  \<^verbatim>\<open>ValueError("bad target")\<close>.
\<close>

definition example_render :: "string \<Rightarrow> response \<Rightarrow> string" where
  "example_render template response = ''<tr>'' @ template @ ''</tr>''"

definition example_record :: "string \<Rightarrow> future \<Rightarrow> CalculationTask" where
  "example_record i t = \<lparr>task_id = i, name = ''job'', task = t, cookie = Some ''u'', count = 1\<rparr>"

definition bad_target :: py_error where
  "bad_target = Raised ''ValueError'' ''bad target''"

definition example_component :: "pyval \<Rightarrow> py_error + string \<times> response" where
  "example_component res = Inr (''<script/>'', [])"

definition example_page :: "string \<Rightarrow> string \<Rightarrow> response \<Rightarrow> string \<Rightarrow> string" where
  "example_page template script divs i = template @ ''?'' @ i"

definition example_pickle :: "pyval \<Rightarrow> string" where
  "example_pickle v = ''pickled''"

text \<open>
  Four submissions of two owners and both job families, and the job table they leave.
\<close>

definition example_submissions :: "submission list" where
  "example_submissions =
     [\<lparr>sub_cookie = Some ''u'', sub_id = ''1e'', sub_name = ''a'', sub_task = started None\<rparr>,
      \<lparr>sub_cookie = Some ''u'', sub_id = ''2h'', sub_name = ''b'', sub_task = started None\<rparr>,
      \<lparr>sub_cookie = Some ''v'', sub_id = ''3e'', sub_name = ''c'', sub_task = started None\<rparr>,
      \<lparr>sub_cookie = Some ''u'', sub_id = ''4e'', sub_name = ''d'', sub_task = started None\<rparr>]"

definition example_mixed :: buffer where
  "example_mixed =
     [(''1e'', \<lparr>task_id = ''1e'', name = ''a'', task = started None, cookie = Some ''u'', count = 1\<rparr>),
      (''2h'', \<lparr>task_id = ''2h'', name = ''b'', task = started None, cookie = Some ''u'', count = 2\<rparr>),
      (''3e'', \<lparr>task_id = ''3e'', name = ''c'', task = started None, cookie = Some ''v'', count = 3\<rparr>),
      (''4e'', \<lparr>task_id = ''4e'', name = ''d'', task = started None, cookie = Some ''u'', count = 4\<rparr>)]"

text \<open>
  The scenario of the spec: the compute function doubles its payload, the payload is 2.
  \<open>example_unit\<close> is the unit of work as dispatched, \<open>example_unit_done\<close> the same unit
  once the compute function has run.
\<close>

definition example_double :: "pyval \<Rightarrow> (py_error + pyval) option" where
  "example_double v = (case v of PyInt x \<Rightarrow> Some (Inr (PyInt (x * 2))) | _ \<Rightarrow> Some (Inl TypeError))"

definition example_unit :: unit_of_work where
  "example_unit = dispatch example_double (PyInt 2)"

definition example_unit_done :: unit_of_work where
  "example_unit_done = example_unit\<lparr>stage := Finished (Inr (PyInt 4)), executions := 1\<rparr>"

section \<open>Facts about ordered dictionaries\<close>

lemma od_setitem_keys:
  "map fst (od_setitem d k v) = (if k \<in> fst ` set d then map fst d else map fst d @ [k])"
  by (induction d) force+

lemma od_setitem_fresh: "k \<notin> fst ` set d \<Longrightarrow> od_setitem d k v = d @ [(k, v)]"
  by (induction d) auto

lemma od_setitem_length:
  "length (od_setitem d k v) = (if k \<in> fst ` set d then length d else Suc (length d))"
  by (induction d) force+

lemma od_setitem_distinct: "distinct (map fst d) \<Longrightarrow> distinct (map fst (od_setitem d k v))"
  by (simp add: od_setitem_keys)

lemma od_get_setitem: "od_get (od_setitem d k v) k' = (if k' = k then Some v else od_get d k')"
  by (induction d) (auto simp: od_get_def)

lemma od_setitem_set: "set (od_setitem d k v) \<subseteq> insert (k, v) (set d)"
  by (induction d) (auto split: if_splits)

lemma od_get_None_iff: "od_get d k = None \<longleftrightarrow> k \<notin> fst ` set d"
  by (simp add: od_get_def map_of_eq_None_iff)

lemma od_get_Some_iff: "distinct (map fst d) \<Longrightarrow> od_get d k = Some v \<longleftrightarrow> (k, v) \<in> set d"
  by (simp add: od_get_def)

section \<open>Facts about submission\<close>

lemma add_task_Inr:
  "add_task u buf i nm t =
     Inr (let b = od_setitem buf i \<lparr>task_id = i, name = nm, task = t, cookie = u, count = int (length buf) + 1\<rparr>
          in if 100 < length b then tl b else b)"
  by (cases "od_setitem buf i \<lparr>task_id = i, name = nm, task = t, cookie = u, count = int (length buf) + 1\<rparr>")
     (simp_all add: add_task_def od_popitem_first_def Let_def)

lemma add_task_length:
  assumes "length buf \<le> 100" and "add_task u buf i nm t = Inr b"
  shows "length b \<le> 100"
proof -
  let ?b = "od_setitem buf i \<lparr>task_id = i, name = nm, task = t, cookie = u, count = int (length buf) + 1\<rparr>"
  have "length ?b \<le> Suc (length buf)" by (simp add: od_setitem_length)
  with assms show ?thesis by (auto simp: add_task_Inr Let_def split: if_splits)
qed

lemma add_task_distinct:
  assumes "distinct (map fst buf)" and "add_task u buf i nm t = Inr b"
  shows "distinct (map fst b)"
proof -
  let ?b = "od_setitem buf i \<lparr>task_id = i, name = nm, task = t, cookie = u, count = int (length buf) + 1\<rparr>"
  have d: "distinct (map fst ?b)" using assms(1) by (rule od_setitem_distinct)
  then have "distinct (map fst (tl ?b))" by (simp add: map_tl distinct_tl)
  with d assms(2) show ?thesis by (auto simp: add_task_Inr Let_def split: if_splits)
qed

lemma add_task_evicts:
  assumes "length buf = 100" and "i \<notin> fst ` set buf"
  shows "add_task u buf i nm t =
    Inr (tl buf @ [(i, \<lparr>task_id = i, name = nm, task = t, cookie = u, count = 101\<rparr>)])"
proof -
  from assms(1) have "buf \<noteq> []" by auto
  with assms show ?thesis by (simp add: add_task_Inr od_setitem_fresh Let_def)
qed

lemma submit_all_inv:
  assumes "length buf \<le> 100" and "distinct (map fst buf)"
  shows "\<exists>b. submit_all buf subs = Inr b \<and> length b \<le> 100 \<and> distinct (map fst b)"
  using assms
proof (induction subs arbitrary: buf)
  case Nil
  then show ?case by simp
next
  case (Cons s ss)
  obtain b where b: "add_task (sub_cookie s) buf (sub_id s) (sub_name s) (sub_task s) = Inr b"
    by (simp add: add_task_Inr)
  have "length b \<le> 100" using Cons.prems(1) b by (rule add_task_length)
  moreover have "distinct (map fst b)" using Cons.prems(2) b by (rule add_task_distinct)
  ultimately show ?case using Cons.IH [of b] b by simp
qed

lemma add_task_keys:
  assumes "length buf \<le> 100" and "i \<notin> fst ` set buf" and "add_task u buf i nm t = Inr b"
  shows "map fst b = drop (Suc (length buf) - 100) (map fst buf @ [i])"
proof (cases "length buf = 100")
  case True
  then have "buf \<noteq> []" by auto
  with True assms show ?thesis by (cases buf) (auto simp: add_task_evicts)
next
  case False
  with assms show ?thesis
    by (auto simp: add_task_Inr Let_def od_setitem_length od_setitem_keys split: if_splits)
qed

lemma submit_all_keys:
  assumes "length buf \<le> 100" and "distinct (map fst buf @ map sub_id subs)"
    and "submit_all buf subs = Inr b"
  shows "map fst b = drop (length buf + length subs - 100) (map fst buf @ map sub_id subs)"
  using assms
proof (induction subs arbitrary: buf)
  case Nil
  then show ?case by simp
next
  case (Cons s ss)
  obtain b' where b': "add_task (sub_cookie s) buf (sub_id s) (sub_name s) (sub_task s) = Inr b'"
    by (simp add: add_task_Inr)
  have fresh: "sub_id s \<notin> fst ` set buf" using Cons.prems(2) by auto
  have k: "map fst b' = drop (Suc (length buf) - 100) (map fst buf @ [sub_id s])"
    using Cons.prems(1) fresh b' by (rule add_task_keys)
  have l: "length b' \<le> 100" using Cons.prems(1) b' by (rule add_task_length)
  have lb: "length b' = Suc (length buf) - (Suc (length buf) - 100)"
    using arg_cong [OF k, of length] by simp
  have sub: "set (map fst b') \<subseteq> set (map fst buf @ [sub_id s])"
    unfolding k by (rule set_drop_subset)
  have dis: "set (map fst buf @ [sub_id s]) \<inter> set (map sub_id ss) = {}"
    using Cons.prems(2) by auto
  have d1: "distinct (map fst b')"
    unfolding k using Cons.prems(2) by (intro distinct_drop) simp
  have d2: "distinct (map sub_id ss)" using Cons.prems(2) by simp
  have "set (map fst b') \<inter> set (map sub_id ss) = {}" using sub dis by blast
  with d1 d2 have d: "distinct (map fst b' @ map sub_id ss)"
    by (simp only: distinct_append simp_thms)
  have "submit_all b' ss = Inr b" using Cons.prems(3) b' by simp
  from Cons.IH [OF l d this]
  have "map fst b = drop (length b' + length ss - 100) (map fst b' @ map sub_id ss)" .
  also have "\<dots> = drop (length buf + length (s # ss) - 100) (map fst buf @ map sub_id (s # ss))"
  proof (cases "length buf = 100")
    case True
    then have ne: "buf \<noteq> []" by auto
    from True have "map fst b' = tl (map fst buf) @ [sub_id s]"
      using k ne by (simp add: drop_Suc)
    moreover have "length b' = 100" using lb True by simp
    ultimately show ?thesis using True ne
      by (cases buf) (simp_all add: drop_Suc)
  next
    case False
    with Cons.prems(1) have "length buf < 100" by simp
    then show ?thesis using k lb by simp
  qed
  finally show ?case .
qed

lemma example_ids_inj: "inj_on (\<lambda>k. replicate k CHR ''0'' @ ''e'') A"
proof (rule inj_onI)
  fix x y :: nat
  assume "replicate x CHR ''0'' @ ''e'' = replicate y CHR ''0'' @ ''e''"
  then have "length (replicate x CHR ''0'' @ ''e'') = length (replicate y CHR ''0'' @ ''e'')"
    by (rule arg_cong)
  then show "x = y" by simp
qed

lemma example_jobs_facts:
  "length example_jobs = 101" "distinct (map sub_id example_jobs)"
  "sub_id (hd example_jobs) = ''e''"
proof -
  show "length example_jobs = 101" by (simp add: example_jobs_def)
  show "distinct (map sub_id example_jobs)"
    by (simp add: example_jobs_def comp_def distinct_map example_ids_inj)
  have "[0..<101] = 0 # [1..<101]" by (simp add: upt_conv_Cons)
  then show "sub_id (hd example_jobs) = ''e''" by (simp add: example_jobs_def)
qed

lemma example_buffer_facts:
  "length example_buffer = 100" "''h'' \<notin> fst ` set example_buffer"
proof -
  show "length example_buffer = 100" by (simp add: example_buffer_def)
  have "replicate k CHR ''0'' @ ''e'' \<noteq> ''h''" for k
  proof
    assume "replicate k CHR ''0'' @ ''e'' = ''h''"
    then have "last (replicate k CHR ''0'' @ ''e'') = last ''h''" by (rule arg_cong)
    then show False by simp
  qed
  then show "''h'' \<notin> fst ` set example_buffer"
    by (auto simp: example_buffer_def)
qed

section \<open>The capacity of the job table\<close>

text \<open>
  C1. Whatever the sequence of submissions, the job table holds at most 100 records after
  every insertion (first conjunct, for every prefix of the sequence; second conjunct, for
  one insertion into any table within the bound). An insertion of a new id into a full
  table removes exactly the first record in insertion order and nothing else (third
  conjunct). After 101 submissions with distinct ids the table holds 100 records, the id
  submitted first is gone, and the others remain in their order (fourth conjunct).
\<close>

theorem registry_capacity:
  "(\<exists>b. submit_all [] (take n subs) = Inr b \<and> length b \<le> 100) \<and>
   (length buf \<le> 100 \<longrightarrow> (\<exists>b. add_task u buf i nm t = Inr b \<and> length b \<le> 100)) \<and>
   (length buf = 100 \<and> i \<notin> fst ` set buf \<longrightarrow>
      add_task u buf i nm t =
        Inr (tl buf @ [(i, \<lparr>task_id = i, name = nm, task = t, cookie = u, count = 101\<rparr>)])) \<and>
   (length subs = 101 \<and> distinct (map sub_id subs) \<longrightarrow>
      (\<exists>b. submit_all [] subs = Inr b \<and> length b = 100 \<and>
           od_get b (sub_id (hd subs)) = None \<and> map fst b = tl (map sub_id subs)))"
proof (intro conjI impI)
  show "\<exists>b. submit_all [] (take n subs) = Inr b \<and> length b \<le> 100"
    using submit_all_inv [of "[]" "take n subs"] by auto
next
  assume "length buf \<le> 100"
  then show "\<exists>b. add_task u buf i nm t = Inr b \<and> length b \<le> 100"
    using add_task_length [of buf u i nm t] by (simp add: add_task_Inr)
next
  assume "length buf = 100 \<and> i \<notin> fst ` set buf"
  then show "add_task u buf i nm t =
      Inr (tl buf @ [(i, \<lparr>task_id = i, name = nm, task = t, cookie = u, count = 101\<rparr>)])"
    by (simp add: add_task_evicts)
next
  assume a: "length subs = 101 \<and> distinct (map sub_id subs)"
  obtain b where b: "submit_all [] subs = Inr b"
    using submit_all_inv [of "[]" subs] by auto
  have k: "map fst b = drop (length subs - 100) (map sub_id subs)"
    using submit_all_keys [of "[]" subs b] a b by simp
  from a obtain s ss where subs: "subs = s # ss" by (cases subs) auto
  have k': "map fst b = map sub_id ss" using k a subs by simp
  have "length b = 100" using arg_cong [OF k', of length] a subs by simp
  moreover have "sub_id s \<notin> set (map fst b)" unfolding k' using a subs by simp
  then have "od_get b (sub_id (hd subs)) = None" by (simp add: od_get_None_iff subs)
  ultimately show "\<exists>b. submit_all [] subs = Inr b \<and> length b = 100 \<and>
      od_get b (sub_id (hd subs)) = None \<and> map fst b = tl (map sub_id subs)"
    using b k' subs by simp
qed

text \<open>The theorem at a full table and at 101 submissions.\<close>

theorem registry_capacity_witness:
  "length example_buffer = 100 \<and> ''h'' \<notin> fst ` set example_buffer \<and>
   add_task None example_buffer ''h'' ''n'' (completed (Inr PyNone)) =
     Inr (tl example_buffer @
          [(''h'', \<lparr>task_id = ''h'', name = ''n'', task = completed (Inr PyNone),
                    cookie = None, count = 101\<rparr>)]) \<and>
   length example_jobs = 101 \<and> distinct (map sub_id example_jobs) \<and>
   (\<exists>b. submit_all [] example_jobs = Inr b \<and> length b = 100 \<and> od_get b ''e'' = None)"
  using registry_capacity [of 101 example_jobs example_buffer None "''h''" "''n''"
      "completed (Inr PyNone)"]
    example_jobs_facts example_buffer_facts
  by auto

section \<open>The sequence number of a record\<close>

text \<open>
  C6. In a job table within its bound, a submission stores a record whose \<open>count\<close> is the
  size of the table before the insertion plus one, and every other record found in the
  table afterwards is the record that was there before, \<open>count\<close> included: an eviction
  recomputes nothing.
\<close>

theorem sequence_assignment:
  assumes "length buf \<le> 100" and "distinct (map fst buf)"
  shows "\<exists>b. add_task u buf i nm t = Inr b \<and>
    od_get b i = Some \<lparr>task_id = i, name = nm, task = t, cookie = u,
                        count = int (length buf) + 1\<rparr> \<and>
    (\<forall>k r. k \<noteq> i \<and> od_get b k = Some r \<longrightarrow> od_get buf k = Some r)"
proof -
  let ?r = "\<lparr>task_id = i, name = nm, task = t, cookie = u, count = int (length buf) + 1\<rparr>"
  let ?b = "od_setitem buf i ?r"
  show ?thesis
  proof (cases "100 < length ?b")
    case False
    then have "add_task u buf i nm t = Inr ?b" by (simp add: add_task_Inr Let_def)
    then show ?thesis by (simp add: od_get_setitem)
  next
    case True
    with assms(1) have len: "length buf = 100" and fresh: "i \<notin> fst ` set buf"
      by (auto simp: od_setitem_length split: if_splits)
    then obtain kv rest where buf: "buf = kv # rest" by (cases buf) auto
    have b: "add_task u buf i nm t = Inr (rest @ [(i, ?r)])"
      using add_task_evicts [OF len fresh, of u nm t] len buf by simp
    have "i \<notin> fst ` set rest" using fresh buf by auto
    then have "map_of rest i = None" by (simp add: map_of_eq_None_iff)
    then have g: "od_get (rest @ [(i, ?r)]) i = Some ?r"
      by (simp add: od_get_def map_add_def)
    have "od_get buf k = Some r" if "k \<noteq> i" "od_get (rest @ [(i, ?r)]) k = Some r" for k r
    proof -
      from that have "map_of rest k = Some r"
        by (auto simp: od_get_def map_add_def split: option.splits)
      then have "(k, r) \<in> set buf" using buf by (auto dest: map_of_SomeD)
      with assms(2) show ?thesis by (simp add: od_get_Some_iff)
    qed
    with b g show ?thesis by auto
  qed
qed

text \<open>The theorem at a full table: the new record is number 101.\<close>

theorem sequence_assignment_witness:
  "length example_buffer \<le> 100 \<and> distinct (map fst example_buffer) \<and>
   (\<exists>b. add_task None example_buffer ''h'' ''n'' (dispatched None) = Inr b \<and>
        od_get b ''h'' = Some \<lparr>task_id = ''h'', name = ''n'', task = dispatched None,
                                cookie = None, count = 101\<rparr>)"
proof -
  have l: "length example_buffer \<le> 100" by (simp add: example_buffer_def)
  have d: "distinct (map fst example_buffer)"
    by (simp add: example_buffer_def comp_def distinct_map example_ids_inj)
  show ?thesis
    using sequence_assignment [OF l d, of None "''h''" "''n''" "dispatched None"] l d
    by (auto simp: example_buffer_facts(1))
qed

section \<open>Facts about the status projection\<close>

text \<open>The fields of the response of a job that is in the table.\<close>

lemma get_task_response_found:
  assumes "od_get buf i = Some ct"
  shows "\<exists>resp. get_task_response r buf i = Inr resp \<and>
    od_get resp ''id'' = Some (PyStr i) \<and>
    od_get resp ''name'' = Some (PyStr (name ct)) \<and>
    od_get resp ''count'' = Some (PyInt (count ct)) \<and>
    od_get resp ''state'' =
      Some (PyStr (if running (task ct) then ''running''
                   else if is_done (task ct) then ''finished''
                   else if cancelled (task ct) then ''cancelled'' else ''pending'')) \<and>
    od_get resp ''code'' = (if running (task ct) then Some (PyInt 202) else None)"
  using assms by (simp add: get_task_response_def Let_def od_get_def)

lemma get_task_response_hst_found:
  assumes "od_get buf i = Some ct"
  shows "\<exists>resp. get_task_response_hst r buf i = Inr resp \<and>
    od_get resp ''id'' = Some (PyStr i) \<and>
    od_get resp ''name'' = Some (PyStr (name ct)) \<and>
    od_get resp ''count'' = Some (PyInt (count ct)) \<and>
    od_get resp ''state'' =
      Some (PyStr (if running (task ct) then ''running''
                   else if is_done (task ct) then ''finished''
                   else if cancelled (task ct) then ''cancelled'' else ''pending'')) \<and>
    od_get resp ''code'' = (if running (task ct) then Some (PyInt 202) else None)"
  using assms by (simp add: get_task_response_hst_def Let_def od_get_def)

text \<open>
  C4. For a job in the table, the state of the snapshot is \<open>running\<close> if the handle
  reports running, else \<open>finished\<close> if it reports done, else \<open>cancelled\<close> if it reports
  cancelled, else \<open>pending\<close>; and the key \<open>code\<close> is in the snapshot, with the value
  202, exactly when the state is \<open>running\<close>.
\<close>

theorem status_precedence:
  assumes "od_get buf i = Some ct"
  shows "\<exists>resp. get_task_response r buf i = Inr resp \<and>
    od_get resp ''state'' =
      Some (PyStr (if running (task ct) then ''running''
                   else if is_done (task ct) then ''finished''
                   else if cancelled (task ct) then ''cancelled'' else ''pending'')) \<and>
    od_get resp ''code'' =
      (if od_get resp ''state'' = Some (PyStr ''running'') then Some (PyInt 202) else None)"
proof -
  from get_task_response_found [OF assms, of r] obtain resp where
    r: "get_task_response r buf i = Inr resp"
    and s: "od_get resp ''state'' =
      Some (PyStr (if running (task ct) then ''running''
                   else if is_done (task ct) then ''finished''
                   else if cancelled (task ct) then ''cancelled'' else ''pending''))"
    and c: "od_get resp ''code'' = (if running (task ct) then Some (PyInt 202) else None)"
    by blast
  have "od_get resp ''state'' = Some (PyStr ''running'') \<longleftrightarrow> running (task ct)"
    unfolding s by simp
  with r s c show ?thesis by simp
qed

text \<open>The theorem at a handle that reports only cancelled.\<close>

theorem status_precedence_witness:
  "od_get [(''7e'', \<lparr>task_id = ''7e'', name = ''n'',
                     task = \<lparr>running = False, is_done = False, cancelled = True, result = None\<rparr>,
                     cookie = None, count = 1\<rparr>)] ''7e'' =
     Some \<lparr>task_id = ''7e'', name = ''n'',
           task = \<lparr>running = False, is_done = False, cancelled = True, result = None\<rparr>,
           cookie = None, count = 1\<rparr> \<and>
   (\<exists>resp. get_task_response example_render
        [(''7e'', \<lparr>task_id = ''7e'', name = ''n'',
                   task = \<lparr>running = False, is_done = False, cancelled = True, result = None\<rparr>,
                   cookie = None, count = 1\<rparr>)] ''7e'' = Inr resp \<and>
      od_get resp ''state'' = Some (PyStr ''cancelled'') \<and> od_get resp ''code'' = None)"
proof -
  have h: "od_get [(''7e'', \<lparr>task_id = ''7e'', name = ''n'',
                     task = \<lparr>running = False, is_done = False, cancelled = True, result = None\<rparr>,
                     cookie = None, count = 1\<rparr>)] ''7e'' =
     Some \<lparr>task_id = ''7e'', name = ''n'',
           task = \<lparr>running = False, is_done = False, cancelled = True, result = None\<rparr>,
           cookie = None, count = 1\<rparr>"
    by (simp add: od_get_def)
  show ?thesis using h status_precedence [OF h, of example_render] by auto
qed

text \<open>
  C3. Polling the status of a job in the table never reports \<open>failed\<close>, whatever the handle
  holds; a handle whose compute function has already raised \<open>e\<close> in the worker is reported
  \<open>finished\<close>. The status handler writes that snapshot (or nothing, on a closed
  connection).
\<close>

theorem poll_never_failed:
  assumes "od_get buf i = Some ct"
  shows "\<exists>resp. get_task_response r buf i = Inr resp \<and>
    CalculationStatusHandler_get r closed buf i = Inr (if closed then None else Some resp) \<and>
    od_get resp ''state'' \<noteq> Some (PyStr ''failed'') \<and>
    (task ct = completed (Inl e) \<longrightarrow> od_get resp ''state'' = Some (PyStr ''finished''))"
proof -
  from get_task_response_found [OF assms, of r] obtain resp where
    r: "get_task_response r buf i = Inr resp"
    and s: "od_get resp ''state'' =
      Some (PyStr (if running (task ct) then ''running''
                   else if is_done (task ct) then ''finished''
                   else if cancelled (task ct) then ''cancelled'' else ''pending''))"
    by blast
  have "od_get resp ''state'' \<noteq> Some (PyStr ''failed'')" unfolding s by simp
  moreover have "od_get resp ''state'' = Some (PyStr ''finished'')" if "task ct = completed (Inl e)"
    unfolding s using that by (simp add: completed_def)
  moreover have "CalculationStatusHandler_get r closed buf i = Inr (if closed then None else Some resp)"
    by (simp add: CalculationStatusHandler_get_def r)
  ultimately show ?thesis using r by blast
qed

text \<open>The theorem at a job whose compute function raised \<^verbatim>\<open>ValueError("bad target")\<close>.\<close>

theorem poll_never_failed_witness:
  "od_get [(''7e'', example_record ''7e'' (completed (Inl bad_target)))] ''7e'' =
     Some (example_record ''7e'' (completed (Inl bad_target))) \<and>
   (\<exists>resp. CalculationStatusHandler_get example_render False
        [(''7e'', example_record ''7e'' (completed (Inl bad_target)))] ''7e'' = Inr (Some resp) \<and>
      od_get resp ''state'' = Some (PyStr ''finished''))"
proof -
  have h: "od_get [(''7e'', example_record ''7e'' (completed (Inl bad_target)))] ''7e'' =
     Some (example_record ''7e'' (completed (Inl bad_target)))"
    by (simp add: od_get_def)
  have t: "task (example_record ''7e'' (completed (Inl bad_target))) = completed (Inl bad_target)"
    by (simp add: example_record_def)
  show ?thesis
    using h t poll_never_failed [OF h, of example_render False bad_target] by auto
qed

text \<open>
  C10. Both projections (\<^verbatim>\<open>_get_task_response\<close> and \<^verbatim>\<open>_get_task_response_hst\<close>) give one
  of \<open>running\<close>, \<open>finished\<close>, \<open>cancelled\<close>, \<open>pending\<close> and never \<open>failed\<close>. A job
  whose handle is done and no longer running is reported \<open>finished\<close> also when retrieving
  its result raises: result retrieval reads the table and leaves it as it is, so the
  projection after the call is the projection of the same table.
\<close>

theorem projection_states:
  assumes "od_get buf i = Some ct"
  shows "(\<exists>resp. get_task_response r buf i = Inr resp \<and>
      od_get resp ''state'' \<in>
        {Some (PyStr ''running''), Some (PyStr ''finished''), Some (PyStr ''cancelled''),
         Some (PyStr ''pending'')} \<and>
      od_get resp ''state'' \<noteq> Some (PyStr ''failed'') \<and>
      (\<not> running (task ct) \<and> is_done (task ct) \<and> get_task_result buf i = Some (Inl e) \<longrightarrow>
         od_get resp ''state'' = Some (PyStr ''finished''))) \<and>
    (\<exists>resp. get_task_response_hst r buf i = Inr resp \<and>
      od_get resp ''state'' \<in>
        {Some (PyStr ''running''), Some (PyStr ''finished''), Some (PyStr ''cancelled''),
         Some (PyStr ''pending'')} \<and>
      od_get resp ''state'' \<noteq> Some (PyStr ''failed'') \<and>
      (\<not> running (task ct) \<and> is_done (task ct) \<and> get_task_result buf i = Some (Inl e) \<longrightarrow>
         od_get resp ''state'' = Some (PyStr ''finished'')))"
proof (rule conjI)
  from get_task_response_found [OF assms, of r] obtain resp where
    r: "get_task_response r buf i = Inr resp"
    and s: "od_get resp ''state'' =
      Some (PyStr (if running (task ct) then ''running''
                   else if is_done (task ct) then ''finished''
                   else if cancelled (task ct) then ''cancelled'' else ''pending''))"
    by blast
  have "od_get resp ''state'' \<in>
        {Some (PyStr ''running''), Some (PyStr ''finished''), Some (PyStr ''cancelled''),
         Some (PyStr ''pending'')}" unfolding s by simp
  moreover have "od_get resp ''state'' \<noteq> Some (PyStr ''failed'')" unfolding s by simp
  moreover have "od_get resp ''state'' = Some (PyStr ''finished'')"
    if "\<not> running (task ct) \<and> is_done (task ct) \<and> get_task_result buf i = Some (Inl e)"
    unfolding s using that by simp
  ultimately show "\<exists>resp. get_task_response r buf i = Inr resp \<and>
      od_get resp ''state'' \<in>
        {Some (PyStr ''running''), Some (PyStr ''finished''), Some (PyStr ''cancelled''),
         Some (PyStr ''pending'')} \<and>
      od_get resp ''state'' \<noteq> Some (PyStr ''failed'') \<and>
      (\<not> running (task ct) \<and> is_done (task ct) \<and> get_task_result buf i = Some (Inl e) \<longrightarrow>
         od_get resp ''state'' = Some (PyStr ''finished''))"
    using r by blast
next
  from get_task_response_hst_found [OF assms, of r] obtain resp where
    r: "get_task_response_hst r buf i = Inr resp"
    and s: "od_get resp ''state'' =
      Some (PyStr (if running (task ct) then ''running''
                   else if is_done (task ct) then ''finished''
                   else if cancelled (task ct) then ''cancelled'' else ''pending''))"
    by blast
  have "od_get resp ''state'' \<in>
        {Some (PyStr ''running''), Some (PyStr ''finished''), Some (PyStr ''cancelled''),
         Some (PyStr ''pending'')}" unfolding s by simp
  moreover have "od_get resp ''state'' \<noteq> Some (PyStr ''failed'')" unfolding s by simp
  moreover have "od_get resp ''state'' = Some (PyStr ''finished'')"
    if "\<not> running (task ct) \<and> is_done (task ct) \<and> get_task_result buf i = Some (Inl e)"
    unfolding s using that by simp
  ultimately show "\<exists>resp. get_task_response_hst r buf i = Inr resp \<and>
      od_get resp ''state'' \<in>
        {Some (PyStr ''running''), Some (PyStr ''finished''), Some (PyStr ''cancelled''),
         Some (PyStr ''pending'')} \<and>
      od_get resp ''state'' \<noteq> Some (PyStr ''failed'') \<and>
      (\<not> running (task ct) \<and> is_done (task ct) \<and> get_task_result buf i = Some (Inl e) \<longrightarrow>
         od_get resp ''state'' = Some (PyStr ''finished''))"
    using r by blast
qed

text \<open>The theorem at a failed job, after its result has been asked for.\<close>

theorem projection_states_witness:
  "od_get [(''7h'', example_record ''7h'' (completed (Inl bad_target)))] ''7h'' =
     Some (example_record ''7h'' (completed (Inl bad_target))) \<and>
   \<not> running (task (example_record ''7h'' (completed (Inl bad_target)))) \<and>
   is_done (task (example_record ''7h'' (completed (Inl bad_target)))) \<and>
   get_task_result [(''7h'', example_record ''7h'' (completed (Inl bad_target)))] ''7h'' =
     Some (Inl bad_target) \<and>
   (\<exists>resp. get_task_response example_render
        [(''7h'', example_record ''7h'' (completed (Inl bad_target)))] ''7h'' = Inr resp \<and>
      od_get resp ''state'' = Some (PyStr ''finished'')) \<and>
   (\<exists>resp. get_task_response_hst example_render
        [(''7h'', example_record ''7h'' (completed (Inl bad_target)))] ''7h'' = Inr resp \<and>
      od_get resp ''state'' = Some (PyStr ''finished''))"
proof -
  have h: "od_get [(''7h'', example_record ''7h'' (completed (Inl bad_target)))] ''7h'' =
     Some (example_record ''7h'' (completed (Inl bad_target)))"
    by (simp add: od_get_def)
  have t: "\<not> running (task (example_record ''7h'' (completed (Inl bad_target))))"
    "is_done (task (example_record ''7h'' (completed (Inl bad_target))))"
    "get_task_result [(''7h'', example_record ''7h'' (completed (Inl bad_target)))] ''7h'' =
       Some (Inl bad_target)"
    by (simp_all add: example_record_def completed_def get_task_result_def od_get_def)
  show ?thesis
    using h t projection_states [OF h, of example_render bad_target] by auto
qed

section \<open>Polling an unknown id\<close>

text \<open>
  C2, as the code has it. For an id that is not a key of the table, the lookup gives
  \<open>None\<close>, and both status handlers raise \<^verbatim>\<open>AttributeError\<close> from reading \<^verbatim>\<open>.task\<close> of
  \<open>None\<close>; nothing is written. The framework answers that exception with status 500, a
  server error.
\<close>

theorem unknown_id_status:
  assumes "i \<notin> fst ` set buf"
  shows "od_get buf i = None \<and>
    CalculationStatusHandler_get r closed buf i = Inl (AttributeError ''task'') \<and>
    CalculationStatusHSTHandler_get r closed buf i = Inl (AttributeError ''task'') \<and>
    send_error_status (AttributeError ''task'') = 500"
proof -
  have "od_get buf i = None" using assms by (simp add: od_get_None_iff)
  then show ?thesis
    by (simp add: CalculationStatusHandler_get_def CalculationStatusHSTHandler_get_def
        get_task_response_def get_task_response_hst_def send_error_status_def)
qed

text \<open>The theorem at the id \<open>7\<close>, a proper prefix of the only key \<open>7e\<close>.\<close>

theorem unknown_id_status_witness:
  "''7'' \<notin> fst ` set [(''7e'', example_record ''7e'' (started None))] \<and>
   od_get [(''7e'', example_record ''7e'' (started None))] ''7'' = None \<and>
   CalculationStatusHandler_get example_render False
     [(''7e'', example_record ''7e'' (started None))] ''7'' = Inl (AttributeError ''task'')"
proof -
  have h: "''7'' \<notin> fst ` set [(''7e'', example_record ''7e'' (started None))]" by simp
  show ?thesis using h unknown_id_status [OF h, of example_render False] by simp
qed

text \<open>
  C2 as stated fails: polling the unknown id \<open>7\<close> does not end in a client error (a status
  from 400 to 499).
\<close>

theorem unknown_id_not_client_error:
  "''7'' \<notin> fst ` set [(''7e'', example_record ''7e'' (started None))] \<and>
   CalculationStatusHandler_get example_render False
     [(''7e'', example_record ''7e'' (started None))] ''7'' = Inl (AttributeError ''task'') \<and>
   \<not> (400 \<le> send_error_status (AttributeError ''task'') \<and>
      send_error_status (AttributeError ''task'') < 500)"
  by (simp add: CalculationStatusHandler_get_def get_task_response_def od_get_def
      send_error_status_def)

section \<open>Facts about the dashboards\<close>

lemma str_getitem_last:
  assumes "i \<noteq> []"
  shows "str_getitem i (int (length i) - 1) = Inr (last i)"
proof -
  from assms have "0 < length i" by simp
  then have "nat (int (length i) - 1) = length i - 1" by simp
  with assms show ?thesis by (simp add: str_getitem_def Let_def last_conv_nth)
qed

lemma str_getitem_empty: "str_getitem [] (int (length ([]::string)) - 1) = Inl IndexError"
  by (simp add: str_getitem_def)

lemma dashboard_rows_filter:
  assumes "\<And>i nt. (i, nt) \<in> set items \<Longrightarrow>
     i \<noteq> [] \<and> (\<exists>resp. project i = Inr resp \<and> key resp = rk i nt)"
  shows "\<exists>rs. dashboard_rows project tag user items = Inr rs \<and>
    map key rs =
      map (\<lambda>(i, nt). rk i nt) (filter (\<lambda>(i, nt). cookie nt = user \<and> last i = tag) items)"
  using assms
proof (induction items)
  case Nil
  then show ?case by simp
next
  case (Cons x items)
  obtain i nt where x: "x = (i, nt)" by (cases x)
  from Cons.prems [of i nt] x obtain resp where
    ne: "i \<noteq> []" and p: "project i = Inr resp" and k: "key resp = rk i nt" by auto
  from Cons.IH Cons.prems obtain rs where
    rs: "dashboard_rows project tag user items = Inr rs"
    and m: "map key rs =
      map (\<lambda>(i, nt). rk i nt) (filter (\<lambda>(i, nt). cookie nt = user \<and> last i = tag) items)"
    by auto
  show ?case
    using ne p k rs m by (simp add: x str_getitem_last)
qed

text \<open>
  In a table with distinct, non-empty keys each dashboard lists the rows of exactly the
  records of the caller with the letter of the dashboard, newest first.
\<close>

lemma dashboard_rows_of_table:
  assumes "distinct (map fst buf)" and "\<forall>i \<in> fst ` set buf. i \<noteq> []"
  shows "(\<exists>rs. DashboardHandler_get r user buf = Inr rs \<and>
      map (\<lambda>resp. (od_get resp ''id'', od_get resp ''name'', od_get resp ''count'')) rs =
        rev (map (\<lambda>(i, nt). (Some (PyStr i), Some (PyStr (name nt)), Some (PyInt (count nt))))
               (filter (\<lambda>(i, nt). cookie nt = user \<and> last i = CHR ''e'') buf))) \<and>
    (\<exists>rs. DashboardHSTHandler_get r user buf = Inr rs \<and>
      map (\<lambda>resp. (od_get resp ''id'', od_get resp ''name'', od_get resp ''count'')) rs =
        rev (map (\<lambda>(i, nt). (Some (PyStr i), Some (PyStr (name nt)), Some (PyInt (count nt))))
               (filter (\<lambda>(i, nt). cookie nt = user \<and> last i = CHR ''h'') buf)))"
proof (rule conjI)
  let ?key = "\<lambda>resp::response. (od_get resp ''id'', od_get resp ''name'', od_get resp ''count'')"
  let ?rk = "\<lambda>(i::string) nt. (Some (PyStr i), Some (PyStr (name nt)), Some (PyInt (count nt)))"
  have "i \<noteq> [] \<and> (\<exists>resp. get_task_response r buf i = Inr resp \<and> ?key resp = ?rk i nt)"
    if "(i, nt) \<in> set buf" for i nt
  proof -
    from that assms(1) have "od_get buf i = Some nt" by (simp add: od_get_Some_iff)
    from get_task_response_found [OF this, of r] have
      "\<exists>resp. get_task_response r buf i = Inr resp \<and> ?key resp = ?rk i nt" by auto
    moreover have "i \<noteq> []" using that assms(2) by force
    ultimately show ?thesis by simp
  qed
  from dashboard_rows_filter [of buf "get_task_response r buf" ?key ?rk "CHR ''e''" user, OF this]
  obtain rs where rs: "dashboard_rows (get_task_response r buf) CHR ''e'' user buf = Inr rs"
    and m: "map ?key rs =
      map (\<lambda>(i, nt). ?rk i nt) (filter (\<lambda>(i, nt). cookie nt = user \<and> last i = CHR ''e'') buf)"
    by blast
  have "DashboardHandler_get r user buf = Inr (rev rs)"
    by (simp add: DashboardHandler_get_def rs)
  moreover have "map ?key (rev rs) =
    rev (map (\<lambda>(i, nt). ?rk i nt) (filter (\<lambda>(i, nt). cookie nt = user \<and> last i = CHR ''e'') buf))"
    using arg_cong [OF m, of rev] by (simp add: rev_map)
  ultimately show "\<exists>rs. DashboardHandler_get r user buf = Inr rs \<and>
      map ?key rs =
        rev (map (\<lambda>(i, nt). ?rk i nt)
               (filter (\<lambda>(i, nt). cookie nt = user \<and> last i = CHR ''e'') buf))"
    by blast
next
  let ?key = "\<lambda>resp::response. (od_get resp ''id'', od_get resp ''name'', od_get resp ''count'')"
  let ?rk = "\<lambda>(i::string) nt. (Some (PyStr i), Some (PyStr (name nt)), Some (PyInt (count nt)))"
  have "i \<noteq> [] \<and> (\<exists>resp. get_task_response_hst r buf i = Inr resp \<and> ?key resp = ?rk i nt)"
    if "(i, nt) \<in> set buf" for i nt
  proof -
    from that assms(1) have "od_get buf i = Some nt" by (simp add: od_get_Some_iff)
    from get_task_response_hst_found [OF this, of r] have
      "\<exists>resp. get_task_response_hst r buf i = Inr resp \<and> ?key resp = ?rk i nt" by auto
    moreover have "i \<noteq> []" using that assms(2) by force
    ultimately show ?thesis by simp
  qed
  from dashboard_rows_filter [of buf "get_task_response_hst r buf" ?key ?rk "CHR ''h''" user, OF this]
  obtain rs where rs: "dashboard_rows (get_task_response_hst r buf) CHR ''h'' user buf = Inr rs"
    and m: "map ?key rs =
      map (\<lambda>(i, nt). ?rk i nt) (filter (\<lambda>(i, nt). cookie nt = user \<and> last i = CHR ''h'') buf)"
    by blast
  have "DashboardHSTHandler_get r user buf = Inr (rev rs)"
    by (simp add: DashboardHSTHandler_get_def rs)
  moreover have "map ?key (rev rs) =
    rev (map (\<lambda>(i, nt). ?rk i nt) (filter (\<lambda>(i, nt). cookie nt = user \<and> last i = CHR ''h'') buf))"
    using arg_cong [OF m, of rev] by (simp add: rev_map)
  ultimately show "\<exists>rs. DashboardHSTHandler_get r user buf = Inr rs \<and>
      map ?key rs =
        rev (map (\<lambda>(i, nt). ?rk i nt)
               (filter (\<lambda>(i, nt). cookie nt = user \<and> last i = CHR ''h'') buf))"
    by blast
qed

lemma add_task_keys_subset:
  assumes "add_task u buf i nm t = Inr b"
  shows "fst ` set b \<subseteq> insert i (fst ` set buf)"
proof -
  let ?b = "od_setitem buf i \<lparr>task_id = i, name = nm, task = t, cookie = u, count = int (length buf) + 1\<rparr>"
  have "set (map fst ?b) \<subseteq> insert i (set (map fst buf))"
    by (auto simp: od_setitem_keys)
  moreover have "set (tl ?b) \<subseteq> set ?b" by (cases ?b) auto
  ultimately show ?thesis using assms
    by (auto simp: add_task_Inr Let_def split: if_splits)
qed

lemma submit_all_keys_subset:
  assumes "submit_all buf subs = Inr b"
  shows "fst ` set b \<subseteq> fst ` set buf \<union> sub_id ` set subs"
  using assms
proof (induction subs arbitrary: buf)
  case Nil
  then show ?case by simp
next
  case (Cons s ss)
  obtain b' where b': "add_task (sub_cookie s) buf (sub_id s) (sub_name s) (sub_task s) = Inr b'"
    by (simp add: add_task_Inr)
  with Cons.prems have "submit_all b' ss = Inr b" by simp
  from Cons.IH [OF this] add_task_keys_subset [OF b'] show ?case by auto
qed

text \<open>
  C5. After any sequence of submissions (any owners, any ids that have a last character),
  the JWST dashboard lists exactly the records of the table whose cookie is the caller's
  and whose id ends in \<open>e\<close>, and the HST dashboard those whose id ends in \<open>h\<close>: one row
  per such record, with its id, name and count, in reverse insertion order, and no other
  row.
\<close>

theorem dashboard_listing:
  assumes "submit_all [] subs = Inr buf" and "\<forall>s \<in> set subs. sub_id s \<noteq> []"
  shows "(\<exists>rs. DashboardHandler_get r user buf = Inr rs \<and>
      map (\<lambda>resp. (od_get resp ''id'', od_get resp ''name'', od_get resp ''count'')) rs =
        rev (map (\<lambda>(i, nt). (Some (PyStr i), Some (PyStr (name nt)), Some (PyInt (count nt))))
               (filter (\<lambda>(i, nt). cookie nt = user \<and> last i = CHR ''e'') buf))) \<and>
    (\<exists>rs. DashboardHSTHandler_get r user buf = Inr rs \<and>
      map (\<lambda>resp. (od_get resp ''id'', od_get resp ''name'', od_get resp ''count'')) rs =
        rev (map (\<lambda>(i, nt). (Some (PyStr i), Some (PyStr (name nt)), Some (PyInt (count nt))))
               (filter (\<lambda>(i, nt). cookie nt = user \<and> last i = CHR ''h'') buf)))"
proof -
  from submit_all_inv [of "[]" subs] assms(1) have d: "distinct (map fst buf)" by auto
  from submit_all_keys_subset [OF assms(1)] assms(2)
  have n: "\<forall>i \<in> fst ` set buf. i \<noteq> []" by fastforce
  from d n show ?thesis by (rule dashboard_rows_of_table)
qed

lemma example_submissions_buffer: "submit_all [] example_submissions = Inr example_mixed"
  by (simp add: example_submissions_def example_mixed_def add_task_def Let_def)

text \<open>The theorem at four submissions of the owners \<open>u\<close> and \<open>v\<close>.\<close>

theorem dashboard_listing_witness:
  "submit_all [] example_submissions = Inr example_mixed \<and>
   [] \<notin> sub_id ` set example_submissions \<and>
   (\<exists>rs. DashboardHandler_get example_render (Some ''u'') example_mixed = Inr rs \<and>
      map (\<lambda>resp. od_get resp ''id'') rs = [Some (PyStr ''4e''), Some (PyStr ''1e'')]) \<and>
   (\<exists>rs. DashboardHSTHandler_get example_render (Some ''u'') example_mixed = Inr rs \<and>
      map (\<lambda>resp. od_get resp ''id'') rs = [Some (PyStr ''2h'')])"
proof -
  have n: "\<forall>s \<in> set example_submissions. sub_id s \<noteq> []"
    by (simp add: example_submissions_def)
  have n': "[] \<notin> sub_id ` set example_submissions" by (simp add: example_submissions_def)
  from dashboard_listing [OF example_submissions_buffer n, of example_render "Some ''u''"]
  obtain rs rs' where
    a: "DashboardHandler_get example_render (Some ''u'') example_mixed = Inr rs"
    and b: "map (\<lambda>resp. (od_get resp ''id'', od_get resp ''name'', od_get resp ''count'')) rs =
        rev (map (\<lambda>(i, nt). (Some (PyStr i), Some (PyStr (name nt)), Some (PyInt (count nt))))
               (filter (\<lambda>(i, nt). cookie nt = Some ''u'' \<and> last i = CHR ''e'') example_mixed))"
    and a': "DashboardHSTHandler_get example_render (Some ''u'') example_mixed = Inr rs'"
    and b': "map (\<lambda>resp. (od_get resp ''id'', od_get resp ''name'', od_get resp ''count'')) rs' =
        rev (map (\<lambda>(i, nt). (Some (PyStr i), Some (PyStr (name nt)), Some (PyInt (count nt))))
               (filter (\<lambda>(i, nt). cookie nt = Some ''u'' \<and> last i = CHR ''h'') example_mixed))"
    by blast
  have "map (\<lambda>resp. od_get resp ''id'') rs =
    map fst (map (\<lambda>resp. (od_get resp ''id'', od_get resp ''name'', od_get resp ''count'')) rs)"
    by (simp add: comp_def)
  also have "\<dots> = [Some (PyStr ''4e''), Some (PyStr ''1e'')]"
    unfolding b by (simp add: example_mixed_def)
  finally have c: "map (\<lambda>resp. od_get resp ''id'') rs = [Some (PyStr ''4e''), Some (PyStr ''1e'')]" .
  have "map (\<lambda>resp. od_get resp ''id'') rs' =
    map fst (map (\<lambda>resp. (od_get resp ''id'', od_get resp ''name'', od_get resp ''count'')) rs')"
    by (simp add: comp_def)
  also have "\<dots> = [Some (PyStr ''2h'')]"
    unfolding b' by (simp add: example_mixed_def)
  finally have c': "map (\<lambda>resp. od_get resp ''id'') rs' = [Some (PyStr ''2h'')]" .
  show ?thesis using example_submissions_buffer n' a c a' c' by simp
qed

section \<open>Cleaning the temporary directory\<close>

lemma str_find_lower: "- 1 \<le> str_find s sub"
  by (induction s) (auto simp: Let_def)

lemma str_find_sublist: "str_find s sub \<noteq> - 1 \<longleftrightarrow> sublist sub s"
proof (induction s)
  case Nil
  then show ?case by simp
next
  case (Cons c s)
  show ?case
  proof (cases "prefix sub (c # s)")
    case True
    then show ?thesis by (simp add: sublist_Cons_right)
  next
    case False
    have "str_find s sub + 1 \<noteq> - 1" using str_find_lower [of s sub] by simp
    then have "str_find (c # s) sub \<noteq> - 1 \<longleftrightarrow> str_find s sub \<noteq> - 1"
      using False by (simp add: Let_def)
    also have "\<dots> \<longleftrightarrow> sublist sub s" by (rule Cons.IH)
    also have "\<dots> \<longleftrightarrow> sublist sub (c # s)" using False by (simp add: sublist_Cons_right)
    finally show ?thesis .
  qed
qed

lemma remove_matching_filter:
  assumes "distinct fs" and "set fs \<subseteq> fst ` set d"
  shows "remove_matching fs i d =
    (Inr (), filter (\<lambda>(n, data). \<not> (n \<in> set fs \<and> str_find n i \<noteq> - 1)) d)"
  using assms
proof (induction fs arbitrary: d)
  case Nil
  then show ?case by simp
next
  case (Cons f fs)
  show ?case
  proof (cases "str_find f i \<noteq> - 1")
    case True
    let ?d = "filter (\<lambda>(n, data). n \<noteq> f) d"
    have rm: "os_remove d f = (Inr (), ?d)" using Cons.prems(2) by (simp add: os_remove_def)
    have "set fs \<subseteq> fst ` set ?d" using Cons.prems by force
    with Cons.IH [of ?d] Cons.prems(1)
    have "remove_matching fs i ?d =
      (Inr (), filter (\<lambda>(n, data). \<not> (n \<in> set fs \<and> str_find n i \<noteq> - 1)) ?d)" by simp
    moreover have "filter (\<lambda>(n, data). \<not> (n \<in> set fs \<and> str_find n i \<noteq> - 1)) ?d =
      filter (\<lambda>(n, data). \<not> (n \<in> set (f # fs) \<and> str_find n i \<noteq> - 1)) d"
      using True by (auto intro: filter_cong)
    ultimately show ?thesis using True rm by simp
  next
    case False
    have "set fs \<subseteq> fst ` set d" using Cons.prems(2) by simp
    with Cons.IH [of d] Cons.prems(1)
    have "remove_matching fs i d =
      (Inr (), filter (\<lambda>(n, data). \<not> (n \<in> set fs \<and> str_find n i \<noteq> - 1)) d)" by simp
    moreover have "filter (\<lambda>(n, data). \<not> (n \<in> set fs \<and> str_find n i \<noteq> - 1)) d =
      filter (\<lambda>(n, data). \<not> (n \<in> set (f # fs) \<and> str_find n i \<noteq> - 1)) d"
      using False by (auto intro: filter_cong)
    ultimately show ?thesis using False by simp
  qed
qed

lemma sweep_filter:
  assumes "distinct (map fst d)"
  shows "sweep d i = (Inr (), filter (\<lambda>(n, data). str_find n i = - 1) d)"
proof -
  have "remove_matching (map fst d) i d =
    (Inr (), filter (\<lambda>(n, data). \<not> (n \<in> set (map fst d) \<and> str_find n i \<noteq> - 1)) d)"
    using assms by (intro remove_matching_filter) simp_all
  moreover have "filter (\<lambda>(n, data). \<not> (n \<in> set (map fst d) \<and> str_find n i \<noteq> - 1)) d =
    filter (\<lambda>(n, data). str_find n i = - 1) d"
    by (rule filter_cong) force+
  ultimately show ?thesis by (simp add: sweep_def)
qed

lemma filter_od_setitem:
  assumes "\<not> P k"
  shows "filter (\<lambda>(n, data). P n) (od_setitem d k v) = filter (\<lambda>(n, data). P n) d"
  using assms by (induction d) auto

lemma distinct_filter_keys: "distinct (map fst d) \<Longrightarrow> distinct (map fst (filter Q d))"
  by (simp add: distinct_map_filter)

lemma download_file_matches: "str_find (''ETC-calculation'' @ i @ ''.p'') i \<noteq> - 1"
  unfolding str_find_sublist by (rule sublist_appendI)

lemma download_completed:
  assumes "od_get buf i = Some ct" and "result (task ct) = Some (Inr v)"
    and "distinct (map fst temp)"
  shows "CalculationDownloadHandler_get pd False buf temp i =
    Some (Inr \<lparr>headers = [(''Content-Type'', ''application/octet-stream''),
                         (''Content-Disposition'',
                          ''attachment; filename='' @ ''ETC-calculation'' @ i @ ''.p'')],
               body = read_chunks 4096 (pd v), finished = True\<rparr>,
          filter (\<lambda>(n, data). str_find n i = - 1) temp)"
proof -
  let ?f = "''ETC-calculation'' @ i @ ''.p''"
  let ?t = "od_setitem temp ?f (pd v)"
  have r: "get_task_result buf i = Some (Inr v)" using assms by (simp add: get_task_result_def)
  have g: "od_get ?t ?f = Some (pd v)" by (simp add: od_get_setitem)
  have "distinct (map fst ?t)" using assms(3) by (rule od_setitem_distinct)
  then have "sweep ?t i = (Inr (), filter (\<lambda>(n, data). str_find n i = - 1) ?t)"
    by (rule sweep_filter)
  also have "filter (\<lambda>(n, data). str_find n i = - 1) ?t =
    filter (\<lambda>(n, data). str_find n i = - 1) temp"
    using download_file_matches [of i] by (intro filter_od_setitem) simp
  finally have s: "sweep ?t i = (Inr (), filter (\<lambda>(n, data). str_find n i = - 1) temp)" .
  show ?thesis
    unfolding CalculationDownloadHandler_get_def r using g s by (simp add: Let_def)
qed

section \<open>Result retrieval\<close>

text \<open>
  C7. When the handle of a job in the table holds the failure \<open>e\<close> of the compute
  function, retrieving the result raises exactly \<open>e\<close> (kind and message unchanged), and
  each handler that retrieves it (download, view, HST view) ends with \<open>e\<close> as well, having
  sent nothing and touched no file: no handler catches it.
\<close>

theorem compute_failure_propagates:
  assumes "od_get buf i = Some ct" and "result (task ct) = Some (Inl e)"
  shows "get_task_result buf i = Some (Inl e) \<and>
    CalculationDownloadHandler_get pd closed buf temp i = Some (Inl e, temp) \<and>
    CalculationViewHandler_get cc rn buf temp i = Some (Inl e, temp) \<and>
    CalculationViewHSTHandler_get cc rn buf temp i = Some (Inl e, temp)"
proof -
  have "get_task_result buf i = Some (Inl e)" using assms by (simp add: get_task_result_def)
  then show ?thesis
    by (simp add: CalculationDownloadHandler_get_def CalculationViewHandler_get_def
        CalculationViewHSTHandler_get_def)
qed

text \<open>The theorem at the scenario \<^verbatim>\<open>ValueError("bad target")\<close>.\<close>

theorem compute_failure_propagates_witness:
  "od_get [(''7e'', example_record ''7e'' (completed (Inl bad_target)))] ''7e'' =
     Some (example_record ''7e'' (completed (Inl bad_target))) \<and>
   result (task (example_record ''7e'' (completed (Inl bad_target)))) =
     Some (Inl (Raised ''ValueError'' ''bad target'')) \<and>
   get_task_result [(''7e'', example_record ''7e'' (completed (Inl bad_target)))] ''7e'' =
     Some (Inl (Raised ''ValueError'' ''bad target'')) \<and>
   CalculationDownloadHandler_get example_pickle False
     [(''7e'', example_record ''7e'' (completed (Inl bad_target)))] [] ''7e'' =
     Some (Inl (Raised ''ValueError'' ''bad target''), [])"
proof -
  have h: "od_get [(''7e'', example_record ''7e'' (completed (Inl bad_target)))] ''7e'' =
     Some (example_record ''7e'' (completed (Inl bad_target)))"
    by (simp add: od_get_def)
  have t: "result (task (example_record ''7e'' (completed (Inl bad_target)))) =
     Some (Inl (Raised ''ValueError'' ''bad target''))"
    by (simp add: example_record_def completed_def bad_target_def)
  show ?thesis
    using h t compute_failure_propagates [OF h t, of example_pickle False "[]"] by simp
qed

text \<open>
  A second call of \<^verbatim>\<open>result()\<close> finds the unit of work finished: it gives the outcome
  of the first call and leaves the unit as it is. Only a call on an unfinished unit
  executes the compute function, once.
\<close>

lemma handle_result_again:
  assumes "handle_result w = Some (r, w1)"
  shows "handle_result w1 = Some (r, w1)"
  using assms by (auto simp: handle_result_def split: stage.splits option.splits)

lemma handle_result_executions:
  assumes "handle_result w = Some (r, w1)"
  shows "executions w1 = executions w + (case stage w of Finished x \<Rightarrow> 0 | _ \<Rightarrow> 1)"
  using assms by (auto simp: handle_result_def split: stage.splits option.splits)

lemma handle_result_finished:
  assumes "handle_result w = Some (r, w1)"
  shows "stage w1 = Finished r"
  using assms by (auto simp: handle_result_def split: stage.splits option.splits)

lemma handle_of_finished: "stage w = Finished r \<Longrightarrow> handle_of w = completed r"
  by (simp add: handle_of_def completed_def handle_result_def)

lemma handle_of_dispatch: "handle_of (dispatch f p) = dispatched (f p)"
  by (cases "f p") (simp_all add: handle_of_def dispatch_def dispatched_def handle_result_def)

text \<open>
  C8. Two retrievals of the result of a job, one after the other. The first reads the
  table \<open>buf\<close>, in which the handle of the job answers for the unit of work \<open>w\<close>, and
  returns (or raises) \<open>r\<close>, leaving the unit as \<open>w1\<close>; the second reads the table
  \<open>buf1\<close>, in which the handle answers for \<open>w1\<close>. Both retrievals give the same \<open>r\<close>,
  and the second leaves the unit of work as it found it: it does not execute the compute
  function again. For a job that was already completed (stage \<open>Finished x\<close>) the first
  retrieval gives the cached \<open>x\<close> and executes nothing either: the count of executions
  is unchanged.
\<close>

theorem result_idempotent:
  assumes "od_get buf i = Some ct" and "task ct = handle_of w"
    and "handle_result w = Some (r, w1)"
    and "od_get buf1 i = Some ct1" and "task ct1 = handle_of w1"
  shows "get_task_result buf i = Some r \<and>
    get_task_result buf1 i = Some r \<and>
    handle_result w1 = Some (r, w1) \<and>
    executions w1 = executions w + (case stage w of Finished x \<Rightarrow> 0 | _ \<Rightarrow> 1) \<and>
    (case stage w of Finished x \<Rightarrow> r = x \<and> w1 = w | _ \<Rightarrow> stage w1 = Finished r)"
proof -
  have again: "handle_result w1 = Some (r, w1)" using assms(3) by (rule handle_result_again)
  have "get_task_result buf i = Some r"
    using assms(1-3) by (simp add: get_task_result_def handle_of_def)
  moreover have "get_task_result buf1 i = Some r"
    using assms(4,5) again by (simp add: get_task_result_def handle_of_def)
  moreover have "case stage w of Finished x \<Rightarrow> r = x \<and> w1 = w | _ \<Rightarrow> stage w1 = Finished r"
    using assms(3) by (auto simp: handle_result_def split: stage.splits option.splits)
  ultimately show ?thesis using again handle_result_executions [OF assms(3)] by simp
qed

text \<open>
  The theorem at a completed job (two retrievals, no execution), and at the same job as
  dispatched (the first retrieval executes the compute function once, the second reads
  the outcome).
\<close>

theorem result_idempotent_witness:
  "od_get [(''7e'', example_record ''7e'' (handle_of example_unit_done))] ''7e'' =
     Some (example_record ''7e'' (handle_of example_unit_done)) \<and>
   task (example_record ''7e'' (handle_of example_unit_done)) = handle_of example_unit_done \<and>
   handle_result example_unit_done = Some (Inr (PyInt 4), example_unit_done) \<and>
   get_task_result [(''7e'', example_record ''7e'' (handle_of example_unit_done))] ''7e'' =
     Some (Inr (PyInt 4)) \<and>
   executions example_unit_done = 1 \<and>
   od_get [(''7e'', example_record ''7e'' (handle_of example_unit))] ''7e'' =
     Some (example_record ''7e'' (handle_of example_unit)) \<and>
   task (example_record ''7e'' (handle_of example_unit)) = handle_of example_unit \<and>
   handle_result example_unit = Some (Inr (PyInt 4), example_unit_done) \<and>
   get_task_result [(''7e'', example_record ''7e'' (handle_of example_unit))] ''7e'' =
     Some (Inr (PyInt 4))"
proof -
  have h: "od_get [(''7e'', example_record ''7e'' (handle_of example_unit_done))] ''7e'' =
     Some (example_record ''7e'' (handle_of example_unit_done))"
    by (simp add: od_get_def)
  have t: "task (example_record ''7e'' (handle_of example_unit_done)) = handle_of example_unit_done"
    by (simp add: example_record_def)
  have r: "handle_result example_unit_done = Some (Inr (PyInt 4), example_unit_done)"
    by (simp add: handle_result_def example_unit_done_def)
  have h0: "od_get [(''7e'', example_record ''7e'' (handle_of example_unit))] ''7e'' =
     Some (example_record ''7e'' (handle_of example_unit))"
    by (simp add: od_get_def)
  have t0: "task (example_record ''7e'' (handle_of example_unit)) = handle_of example_unit"
    by (simp add: example_record_def)
  have r0: "handle_result example_unit = Some (Inr (PyInt 4), example_unit_done)"
    by (simp add: handle_result_def example_unit_done_def example_unit_def dispatch_def
        example_double_def)
  have e: "executions example_unit_done = 1" by (simp add: example_unit_done_def)
  show ?thesis
    using h t r h0 t0 r0 e result_idempotent [OF h t r h t] result_idempotent [OF h0 t0 r0 h t]
    by simp
qed

section \<open>Files left behind by the HST view\<close>

text \<open>
  After a completed download, no file of the directory has the id in its name.
\<close>

lemma download_leaves_no_file:
  assumes "od_get buf i = Some ct" and "result (task ct) = Some (Inr v)"
    and "distinct (map fst temp)"
    and "CalculationDownloadHandler_get pd False buf temp i = Some (out, temp')"
    and "f \<in> fst ` set temp'"
  shows "\<not> sublist i f"
proof -
  from download_completed [OF assms(1-3), of pd] assms(4)
  have "temp' = filter (\<lambda>(n, data). str_find n i = - 1) temp" by simp
  with assms(5) have "str_find f i = - 1" by auto
  then show ?thesis using str_find_sublist [of f i] by simp
qed

text \<open>
  C9 fails on \<^verbatim>\<open>CalculationViewHSTHandler.get\<close>. With the job \<open>7h\<close> completed and the
  uploaded file \<open>7hplanet.dat\<close> in the directory, the HST view renders its page and leaves
  the file, whose name contains the id (found at index 0). The JWST view, on the same
  situation for the job \<open>7e\<close>, removes the file.
\<close>

theorem view_hst_keeps_files:
  "CalculationViewHSTHandler_get example_component example_page
     [(''7h'', example_record ''7h'' (completed (Inr (PyDict [(''info_div'', PyStr ''info'')]))))]
     [(''7hplanet.dat'', ''spectrum'')] ''7h'' =
     Some (Inr ''viewhst.html?7h'', [(''7hplanet.dat'', ''spectrum'')]) \<and>
   str_find ''7hplanet.dat'' ''7h'' = 0 \<and>
   CalculationViewHandler_get example_component example_page
     [(''7e'', example_record ''7e'' (completed (Inr (PyDict
         [(''timing_div'', PyStr ''t''), (''input_div'', PyStr ''i''),
          (''warnings_div'', PyStr ''w'')]))))]
     [(''7eplanet.dat'', ''spectrum'')] ''7e'' =
     Some (Inr ''view.html?7e'', [])"
  by (simp add: CalculationViewHSTHandler_get_def CalculationViewHandler_get_def
      get_task_result_def od_get_def example_record_def completed_def example_component_def
      example_page_def py_getitem_def sweep_def os_remove_def Let_def)

end
